theory Spec2Isabelle
  imports Main "HOL-Library.Multiset" "HOL-Library.List_Lexorder" "HOL-Library.Char_ord"
    "HOL-Library.Word"
begin

unbundle bit_operations_syntax

section \<open>Python values and the Chronos client\<close>

text \<open>
  Embedding of \<^verbatim>\<open>paasta_tools/cleanup_chronos_jobs.py\<close>.

  A job is named by a string. The values that travel through the script are the
  responses of the Chronos client: \<^verbatim>\<open>None\<close> (the body of a 204 reply), some other body,
  or an exception object. The client re-raises every transport error as
  \<^verbatim>\<open>Exception\<close> (docstring of \<^verbatim>\<open>execute_chronos_api_call_for_job\<close>), so \<open>exn\<close> is the
  type of instances of \<^verbatim>\<open>Exception\<close>, carrying their message. A call of the client either
  returns a value or raises such an instance.
\<close>

type_synonym job = string

datatype exn = Exn string

datatype pyval = PyNone | PyStr string | PyExn exn

datatype outcome = Returns pyval | Raises exn

text \<open>\<^verbatim>\<open>isinstance(v, Exception)\<close>\<close>

fun isinstance_Exception :: "pyval \<Rightarrow> bool" where
  "isinstance_Exception (PyExn e) = True"
| "isinstance_Exception PyNone = False"
| "isinstance_Exception (PyStr s) = False"

text \<open>
  The client object: \<^verbatim>\<open>client.delete(job)\<close> and \<^verbatim>\<open>client.delete_tasks(job)\<close> act on the
  remote scheduler, whose state \<open>'s\<close> they may change whether they return or raise.
\<close>

record 's client =
  delete :: "job \<Rightarrow> 's \<Rightarrow> outcome \<times> 's"
  delete_tasks :: "job \<Rightarrow> 's \<Rightarrow> outcome \<times> 's"

text \<open>
  The world a run acts on: the scheduler's state, and the log of the calls issued to the
  client so far, each with the job it was given and how it ended, oldest first.
\<close>

datatype op = DeleteTasks | Delete

type_synonym event = "op \<times> job \<times> outcome"

record 's world =
  remote :: 's
  calls :: "event list"

text \<open>The bound methods \<^verbatim>\<open>client.delete\<close> and \<^verbatim>\<open>client.delete_tasks\<close>.\<close>

definition client_delete :: "'s client \<Rightarrow> job \<Rightarrow> 's world \<Rightarrow> outcome \<times> 's world" where
  "client_delete c job w =
     (case delete c job (remote w) of
        (out, s') \<Rightarrow> (out, \<lparr>remote = s', calls = calls w @ [(Delete, job, out)]\<rparr>))"

definition client_delete_tasks :: "'s client \<Rightarrow> job \<Rightarrow> 's world \<Rightarrow> outcome \<times> 's world" where
  "client_delete_tasks c job w =
     (case delete_tasks c job (remote w) of
        (out, s') \<Rightarrow> (out, \<lparr>remote = s', calls = calls w @ [(DeleteTasks, job, out)]\<rparr>))"

section \<open>The functions of the script\<close>

text \<open>
  \<^verbatim>\<open>try: return api_call(job)\<close> / \<^verbatim>\<open>except Exception as e: return e\<close>:
  the value returned, or the exception object as a value.
\<close>

definition execute_chronos_api_call_for_job ::
  "(job \<Rightarrow> 'w \<Rightarrow> outcome \<times> 'w) \<Rightarrow> job \<Rightarrow> 'w \<Rightarrow> pyval \<times> 'w" where
  "execute_chronos_api_call_for_job api_call job w =
     (case api_call job w of
        (Returns v, w') \<Rightarrow> (v, w')
      | (Raises e, w') \<Rightarrow> (PyExn e, w'))"

text \<open>The two list comprehensions, evaluated left to right.\<close>

fun cleanup_jobs :: "'s client \<Rightarrow> job list \<Rightarrow> 's world \<Rightarrow> (job \<times> pyval) list \<times> 's world" where
  "cleanup_jobs c [] w = ([], w)"
| "cleanup_jobs c (job # jobs) w =
     (case execute_chronos_api_call_for_job (client_delete c) job w of
        (r, w') \<Rightarrow> (case cleanup_jobs c jobs w' of (rs, w'') \<Rightarrow> ((job, r) # rs, w'')))"

fun cleanup_tasks :: "'s client \<Rightarrow> job list \<Rightarrow> 's world \<Rightarrow> (job \<times> pyval) list \<times> 's world" where
  "cleanup_tasks c [] w = ([], w)"
| "cleanup_tasks c (job # jobs) w =
     (case execute_chronos_api_call_for_job (client_delete_tasks c) job w of
        (r, w') \<Rightarrow> (case cleanup_tasks c jobs w' of (rs, w'') \<Rightarrow> ((job, r) # rs, w'')))"

text \<open>
  Python sets. A set is held as the duplicate-free sequence in which its elements were
  inserted. The order in which the runtime walks the hash table of a set is not fixed
  by the script: it is the parameter \<open>table_order\<close>, which maps the insertion sequence
  to the iteration sequence. \<open>enumerates\<close> says what every runtime guarantees of it: each
  element is visited once.
\<close>

datatype 'a pyset = PySet (inserted: "'a list")

definition enumerates :: "('a list \<Rightarrow> 'a list) \<Rightarrow> bool" where
  "enumerates table_order \<longleftrightarrow> (\<forall>xs. mset (table_order xs) = mset xs)"

text \<open>\<^verbatim>\<open>s.add(x)\<close>, and \<^verbatim>\<open>set(xs)\<close>, which adds the elements of \<open>xs\<close> in turn.\<close>

definition set_add :: "'a pyset \<Rightarrow> 'a \<Rightarrow> 'a pyset" where
  "set_add s x = (if x \<in> set (inserted s) then s else PySet (inserted s @ [x]))"

definition py_set :: "'a list \<Rightarrow> 'a pyset" where
  "py_set xs = foldl set_add (PySet []) xs"

text \<open>\<^verbatim>\<open>s.difference(t)\<close> walks \<open>s\<close> and adds to a new set what is not in \<open>t\<close>.\<close>

definition difference :: "('a list \<Rightarrow> 'a list) \<Rightarrow> 'a pyset \<Rightarrow> 'a pyset \<Rightarrow> 'a pyset" where
  "difference table_order s t =
     foldl set_add (PySet []) (filter (\<lambda>x. x \<notin> set (inserted t)) (table_order (inserted s)))"

text \<open>\<^verbatim>\<open>list(s)\<close>\<close>

definition py_list :: "('a list \<Rightarrow> 'a list) \<Rightarrow> 'a pyset \<Rightarrow> 'a list" where
  "py_list table_order s = table_order (inserted s)"

definition jobs_to_delete :: "('a list \<Rightarrow> 'a list) \<Rightarrow> 'a list \<Rightarrow> 'a list \<Rightarrow> 'a list" where
  "jobs_to_delete table_order expected_jobs actual_jobs =
     py_list table_order (difference table_order (py_set actual_jobs) (py_set expected_jobs))"

text \<open>\<^verbatim>\<open>sep.join(xs)\<close> and \<^verbatim>\<open>'%s\n  %s' % (title, '\n  '.join(job_names))\<close>\<close>

fun join :: "string \<Rightarrow> string list \<Rightarrow> string" where
  "join sep [] = []"
| "join sep [x] = x"
| "join sep (x # y # ys) = x @ sep @ join sep (y # ys)"

definition format_list_output :: "string \<Rightarrow> string list \<Rightarrow> string" where
  "format_list_output title job_names =
     title @ [CHR 0x0A] @ ''  '' @ join ([CHR 0x0A] @ ''  '') job_names"

text \<open>\<^verbatim>\<open>[job[-1] for job in service_job_pairs]\<close>, on pairs.\<close>

definition expected_job_names :: "(string \<times> job) list \<Rightarrow> job list" where
  "expected_job_names service_job_pairs = map snd service_job_pairs"

text \<open>
  One round of either \<^verbatim>\<open>for response in ...\<close> loop of \<open>main\<close>: the response is appended
  to the failures if its last component is an instance of \<^verbatim>\<open>Exception\<close>, to the successes
  otherwise. The pair is (successes, failures).
\<close>

definition sort_response ::
  "(job \<times> pyval) list \<times> (job \<times> pyval) list \<Rightarrow> job \<times> pyval
     \<Rightarrow> (job \<times> pyval) list \<times> (job \<times> pyval) list" where
  "sort_response acc response =
     (if isinstance_Exception (snd response)
      then (fst acc, snd acc @ [response])
      else (fst acc @ [response], snd acc))"

text \<open>
  \<open>main\<close>, from the line that computes \<open>to_delete\<close> on: the lines before it read the
  arguments and the configuration and supply the client, \<open>expected_jobs\<close> and
  \<open>running_jobs\<close>. The result holds the local variables at the end, what was printed (one
  entry for each \<^verbatim>\<open>print\<close>), the exit status of the process (1 after \<^verbatim>\<open>sys.exit(1)\<close>, 0 when
  \<open>main\<close> returns) and the world the run leaves. No call was issued when \<open>main\<close> starts.
\<close>

record 's run =
  to_delete :: "job list"
  task_successes :: "(job \<times> pyval) list"
  task_failures :: "(job \<times> pyval) list"
  job_successes :: "(job \<times> pyval) list"
  job_failures :: "(job \<times> pyval) list"
  stdout :: "string list"
  exit_status :: nat
  world_after :: "'s world"

definition main ::
  "(job list \<Rightarrow> job list) \<Rightarrow> 's client \<Rightarrow> job list \<Rightarrow> job list \<Rightarrow> 's \<Rightarrow> 's run" where
  "main table_order c expected_jobs running_jobs s =
     (let td = jobs_to_delete table_order expected_jobs running_jobs;
          (task_responses, w1) = cleanup_tasks c td \<lparr>remote = s, calls = []\<rparr>;
          (ts, tf) = foldl sort_response ([], []) task_responses;
          (job_responses, w2) = cleanup_jobs c td w1;
          (js, jf) = foldl sort_response ([], []) job_responses
      in \<lparr>to_delete = td,
          task_successes = ts, task_failures = tf,
          job_successes = js, job_failures = jf,
          stdout =
            (if length td = 0 then [''No Chronos Jobs to remove'']
             else
               (if length ts > 0
                then [format_list_output
                        ''Successfully Removed Tasks (if any were running) for:'' (map fst ts)]
                else [])
               @ (if length tf > 0
                  then [format_list_output ''Failed to Delete Tasks for:'' (map fst tf)]
                  else [])
               @ (if length js > 0
                  then [format_list_output ''Successfully Removed Jobs:'' (map fst js)]
                  else [])
               @ (if length jf > 0
                  then [format_list_output ''Failed to Delete Jobs:'' (map fst jf)]
                  else [])),
          exit_status =
            (if length td = 0 then 0
             else if length jf > 0 \<or> length tf > 0 then 1 else 0),
          world_after = w2\<rparr>)"

section \<open>Reading a run\<close>

text \<open>
  What the script keeps of a call: the value returned, or the exception raised, as a
  value (the two branches of \<open>execute_chronos_api_call_for_job\<close>).
\<close>

definition recorded :: "outcome \<Rightarrow> pyval" where
  "recorded out = (case out of Returns v \<Rightarrow> v | Raises e \<Rightarrow> PyExn e)"

definition call_of :: "event \<Rightarrow> op \<times> job" where
  "call_of ev = (fst ev, fst (snd ev))"

definition response_of :: "event \<Rightarrow> job \<times> pyval" where
  "response_of ev = (fst (snd ev), recorded (snd (snd ev)))"

text \<open>An attempt counts as failed when \<open>main\<close> files its response under the failures.\<close>

definition failed :: "event \<Rightarrow> bool" where
  "failed ev = isinstance_Exception (recorded (snd (snd ev)))"

text \<open>The bucket of successes, and of failures, of either operation.\<close>

definition successes :: "op \<Rightarrow> 's run \<Rightarrow> (job \<times> pyval) list" where
  "successes op r = (case op of DeleteTasks \<Rightarrow> task_successes r | Delete \<Rightarrow> job_successes r)"

definition failures :: "op \<Rightarrow> 's run \<Rightarrow> (job \<times> pyval) list" where
  "failures op r = (case op of DeleteTasks \<Rightarrow> task_failures r | Delete \<Rightarrow> job_failures r)"

text \<open>Either operation of the client, and the comprehension that issues it.\<close>

definition client_call :: "op \<Rightarrow> 's client \<Rightarrow> job \<Rightarrow> 's world \<Rightarrow> outcome \<times> 's world" where
  "client_call op c = (case op of DeleteTasks \<Rightarrow> client_delete_tasks c | Delete \<Rightarrow> client_delete c)"

definition cleanup ::
  "op \<Rightarrow> 's client \<Rightarrow> job list \<Rightarrow> 's world \<Rightarrow> (job \<times> pyval) list \<times> 's world" where
  "cleanup op c = (case op of DeleteTasks \<Rightarrow> cleanup_tasks c | Delete \<Rightarrow> cleanup_jobs c)"

text \<open>
  What a call of the client returns when it returns: the body of the reply, which is
  \<^verbatim>\<open>None\<close> for the 204 of a deletion that went through, or whatever text the reply held.
\<close>

definition response_body :: "string option \<Rightarrow> pyval" where
  "response_body b = (case b of None \<Rightarrow> PyNone | Some content \<Rightarrow> PyStr content)"

section \<open>A table order and a client to run the script on\<close>

text \<open>
  The hash of a string in CPython 2.7 (64 bit, hash randomisation off):
  \<^verbatim>\<open>x = ord(s[0]) << 7\<close>, then \<^verbatim>\<open>x = (1000003 * x) ^ ord(c)\<close> for each character,
  then \<^verbatim>\<open>x ^= len(s)\<close>, and \<open>-2\<close> in place of \<open>-1\<close>; the empty string hashes to 0.
  A table of eight slots, the size of a small set, puts a string in the slot given by the
  low three bits. \<open>table8\<close> walks the slots in turn. Strings that share a slot are left in
  insertion order here, where CPython would probe for a free slot; the strings a, b and c
  fall into three different slots.
\<close>

definition string_hash :: "string \<Rightarrow> 64 word" where
  "string_hash s =
     (case s of
        [] \<Rightarrow> 0
      | c # _ \<Rightarrow>
          (let x = foldl (\<lambda>x ch. (1000003 * x) XOR of_char ch) (push_bit 7 (of_char c)) s;
               y = x XOR of_nat (length s)
           in if y = - 1 then - 2 else y))"

definition slot8 :: "string \<Rightarrow> nat" where
  "slot8 s = unat (string_hash s AND 7)"

definition table8 :: "string list \<Rightarrow> string list" where
  "table8 xs = sort_key slot8 xs"

text \<open>
  A scheduler whose state is the list of its jobs. Deleting a job removes it; deleting
  the tasks of \<open>svc.jobZ\<close> raises.
\<close>

definition flaky_client :: "job list client" where
  "flaky_client =
     \<lparr>delete = (\<lambda>job s. (Returns PyNone, removeAll job s)),
      delete_tasks = (\<lambda>job s.
        if job = ''svc.jobZ'' then (Raises (Exn ''500''), s) else (Returns PyNone, s))\<rparr>"

section \<open>Sets and the work list\<close>

lemma set_foldl_set_add:
  "set (inserted (foldl set_add s xs)) = set (inserted s) \<union> set xs"
  by (induction xs arbitrary: s) (auto simp: set_add_def)

lemma distinct_foldl_set_add:
  "distinct (inserted s) \<Longrightarrow> distinct (inserted (foldl set_add s xs))"
  by (induction xs arbitrary: s) (auto simp: set_add_def)

lemma enumerates_set: "enumerates t \<Longrightarrow> set (t xs) = set xs"
  unfolding enumerates_def by (metis set_mset_mset)

lemma enumerates_distinct: "enumerates t \<Longrightarrow> distinct (t xs) = distinct xs"
  unfolding enumerates_def by (metis mset_eq_imp_distinct_iff)

lemma set_jobs_to_delete:
  "enumerates t \<Longrightarrow> set (jobs_to_delete t E A) = set A - set E"
  by (auto simp: jobs_to_delete_def py_list_def difference_def py_set_def
      enumerates_set set_foldl_set_add)

lemma distinct_jobs_to_delete:
  "enumerates t \<Longrightarrow> distinct (jobs_to_delete t E A)"
  by (simp add: jobs_to_delete_def py_list_def difference_def py_set_def
      enumerates_distinct distinct_foldl_set_add)

lemma enumerates_id: "enumerates id"
  by (simp add: enumerates_def)

lemma enumerates_table8: "enumerates table8"
  by (simp add: enumerates_def table8_def)

section \<open>The calls of the two comprehensions\<close>

lemma execute_recorded:
  "execute_chronos_api_call_for_job api_call job w =
     (recorded (fst (api_call job w)), snd (api_call job w))"
  by (simp add: execute_chronos_api_call_for_job_def recorded_def
      split: prod.splits outcome.splits)

lemma call_of_triple: "call_of (op, j, out) = (op, j)"
  by (simp add: call_of_def)

lemma response_of_triple: "response_of (op, j, out) = (j, recorded out)"
  by (simp add: response_of_def)

lemma failed_triple: "failed (op, j, out) = isinstance_Exception (recorded out)"
  by (simp add: failed_def)

lemma cleanup_tasks_events:
  "\<exists>evs. calls (snd (cleanup_tasks c jobs w)) = calls w @ evs
       \<and> map call_of evs = map (Pair DeleteTasks) jobs
       \<and> fst (cleanup_tasks c jobs w) = map response_of evs"
proof (induction jobs arbitrary: w)
  case Nil
  show ?case by simp
next
  case (Cons job jobs)
  obtain out s' where d: "delete_tasks c job (remote w) = (out, s')"
    by (cases "delete_tasks c job (remote w)")
  define w' where "w' = \<lparr>remote = s', calls = calls w @ [(DeleteTasks, job, out)]\<rparr>"
  from Cons.IH [of w'] obtain evs where
    evs: "calls (snd (cleanup_tasks c jobs w')) = calls w' @ evs"
      "map call_of evs = map (Pair DeleteTasks) jobs"
      "fst (cleanup_tasks c jobs w') = map response_of evs"
    by blast
  have step: "cleanup_tasks c (job # jobs) w =
      ((job, recorded out) # fst (cleanup_tasks c jobs w'), snd (cleanup_tasks c jobs w'))"
    by (simp add: execute_recorded client_delete_tasks_def d w'_def split: prod.splits)
  have cw: "calls w' = calls w @ [(DeleteTasks, job, out)]"
    by (simp add: w'_def)
  show ?case
    unfolding step
    by (rule exI [of _ "(DeleteTasks, job, out) # evs"])
      (simp add: evs cw call_of_triple response_of_triple)
qed

lemma cleanup_jobs_events:
  "\<exists>evs. calls (snd (cleanup_jobs c jobs w)) = calls w @ evs
       \<and> map call_of evs = map (Pair Delete) jobs
       \<and> fst (cleanup_jobs c jobs w) = map response_of evs"
proof (induction jobs arbitrary: w)
  case Nil
  show ?case by simp
next
  case (Cons job jobs)
  obtain out s' where d: "delete c job (remote w) = (out, s')"
    by (cases "delete c job (remote w)")
  define w' where "w' = \<lparr>remote = s', calls = calls w @ [(Delete, job, out)]\<rparr>"
  from Cons.IH [of w'] obtain evs where
    evs: "calls (snd (cleanup_jobs c jobs w')) = calls w' @ evs"
      "map call_of evs = map (Pair Delete) jobs"
      "fst (cleanup_jobs c jobs w') = map response_of evs"
    by blast
  have step: "cleanup_jobs c (job # jobs) w =
      ((job, recorded out) # fst (cleanup_jobs c jobs w'), snd (cleanup_jobs c jobs w'))"
    by (simp add: execute_recorded client_delete_def d w'_def split: prod.splits)
  have cw: "calls w' = calls w @ [(Delete, job, out)]"
    by (simp add: w'_def)
  show ?case
    unfolding step
    by (rule exI [of _ "(Delete, job, out) # evs"])
      (simp add: evs cw call_of_triple response_of_triple)
qed

lemma foldl_sort_response:
  "foldl sort_response acc rs =
     (fst acc @ filter (\<lambda>r. \<not> isinstance_Exception (snd r)) rs,
      snd acc @ filter (\<lambda>r. isinstance_Exception (snd r)) rs)"
  by (induction rs arbitrary: acc) (auto simp: sort_response_def)

section \<open>The fields of a run\<close>

lemma main_to_delete: "to_delete (main t c E A s) = jobs_to_delete t E A"
  by (simp add: main_def Let_def split_beta)

lemma main_exit_status:
  "exit_status (main t c E A s) =
     (if to_delete (main t c E A s) = [] then 0
      else if job_failures (main t c E A s) \<noteq> [] \<or> task_failures (main t c E A s) \<noteq> []
      then 1 else 0)"
  by (simp add: main_def Let_def split_beta)

lemma main_events:
  obtains et ej where
    "calls (world_after (main t c E A s)) = et @ ej"
    "map call_of et = map (Pair DeleteTasks) (jobs_to_delete t E A)"
    "map call_of ej = map (Pair Delete) (jobs_to_delete t E A)"
    "task_successes (main t c E A s) =
       filter (\<lambda>r. \<not> isinstance_Exception (snd r)) (map response_of et)"
    "task_failures (main t c E A s) =
       filter (\<lambda>r. isinstance_Exception (snd r)) (map response_of et)"
    "job_successes (main t c E A s) =
       filter (\<lambda>r. \<not> isinstance_Exception (snd r)) (map response_of ej)"
    "job_failures (main t c E A s) =
       filter (\<lambda>r. isinstance_Exception (snd r)) (map response_of ej)"
proof -
  define td where "td = jobs_to_delete t E A"
  define w0 :: "'a world" where "w0 = \<lparr>remote = s, calls = []\<rparr>"
  define w1 where "w1 = snd (cleanup_tasks c td w0)"
  obtain et where et: "calls w1 = calls w0 @ et"
    "map call_of et = map (Pair DeleteTasks) td"
    "fst (cleanup_tasks c td w0) = map response_of et"
    using cleanup_tasks_events [of c td w0] unfolding w1_def by blast
  obtain ej where ej: "calls (snd (cleanup_jobs c td w1)) = calls w1 @ ej"
    "map call_of ej = map (Pair Delete) td"
    "fst (cleanup_jobs c td w1) = map response_of ej"
    using cleanup_jobs_events [of c td w1] by blast
  have c0: "calls w0 = []" by (simp add: w0_def)
  have 1: "calls (world_after (main t c E A s)) = et @ ej"
    using ej(1) et(1) c0
    by (simp add: main_def Let_def split_beta td_def w0_def w1_def)
  have 2: "task_successes (main t c E A s) =
       filter (\<lambda>r. \<not> isinstance_Exception (snd r)) (map response_of et)"
    using et(3)
    by (simp add: main_def Let_def split_beta foldl_sort_response td_def w0_def)
  have 3: "task_failures (main t c E A s) =
       filter (\<lambda>r. isinstance_Exception (snd r)) (map response_of et)"
    using et(3)
    by (simp add: main_def Let_def split_beta foldl_sort_response td_def w0_def)
  have 4: "job_successes (main t c E A s) =
       filter (\<lambda>r. \<not> isinstance_Exception (snd r)) (map response_of ej)"
    using ej(3)
    by (simp add: main_def Let_def split_beta foldl_sort_response td_def w0_def w1_def)
  have 5: "job_failures (main t c E A s) =
       filter (\<lambda>r. isinstance_Exception (snd r)) (map response_of ej)"
    using ej(3)
    by (simp add: main_def Let_def split_beta foldl_sort_response td_def w0_def w1_def)
  show ?thesis
    using that [OF 1 et(2) [unfolded td_def] ej(2) [unfolded td_def] 2 3 4 5] .
qed

lemma snd_response_of: "isinstance_Exception (snd (response_of ev)) = failed ev"
  by (simp add: response_of_def failed_def)



section \<open>The claims\<close>

text \<open>
  C3. Whatever the order in which the runtime walks its sets, \<open>jobs_to_delete\<close> returns
  exactly the elements of the actual jobs that are not expected, each once; the result is
  empty exactly when every actual job is expected; and which jobs it holds does not
  change when the inputs are reordered or repeat elements.
\<close>

theorem jobs_to_delete_is_difference:
  fixes E A E' A' :: "'a list"
  assumes "enumerates t" and "set E' = set E" and "set A' = set A"
  shows "set (jobs_to_delete t E A) = {x \<in> set A. x \<notin> set E}
       \<and> distinct (jobs_to_delete t E A)
       \<and> (jobs_to_delete t E A = [] \<longleftrightarrow> set A \<subseteq> set E)
       \<and> set (jobs_to_delete t E' A') = set (jobs_to_delete t E A)"
proof -
  have 1: "set (jobs_to_delete t E A) = {x \<in> set A. x \<notin> set E}"
    using set_jobs_to_delete [OF assms(1), of E A] by auto
  have 2: "distinct (jobs_to_delete t E A)"
    by (rule distinct_jobs_to_delete [OF assms(1)])
  have "(jobs_to_delete t E A = []) = (set (jobs_to_delete t E A) = {})"
    by simp
  also have "\<dots> = (set A \<subseteq> set E)"
    using set_jobs_to_delete [OF assms(1), of E A] by auto
  finally have 3: "(jobs_to_delete t E A = []) = (set A \<subseteq> set E)" .
  have 4: "set (jobs_to_delete t E' A') = set (jobs_to_delete t E A)"
    by (simp add: set_jobs_to_delete [OF assms(1)] assms(2,3))
  from 1 2 3 4 show ?thesis by blast
qed

text \<open>An instance, with the table order of eight slots.\<close>

theorem jobs_to_delete_is_difference_witness:
  "enumerates table8
   \<and> set [''x'', ''q'', ''x''] = set [''q'', ''x'']
   \<and> set [''c'', ''x'', ''a'', ''b'', ''a''] = set [''a'', ''b'', ''c'', ''x'']
   \<and> set (jobs_to_delete table8 [''q'', ''x''] [''a'', ''b'', ''c'', ''x'']) =
       {x \<in> set [''a'', ''b'', ''c'', ''x'']. x \<notin> set [''q'', ''x'']}
   \<and> distinct (jobs_to_delete table8 [''q'', ''x''] [''a'', ''b'', ''c'', ''x''])
   \<and> (jobs_to_delete table8 [''q'', ''x''] [''a'', ''b'', ''c'', ''x''] = []
        \<longleftrightarrow> set [''a'', ''b'', ''c'', ''x''] \<subseteq> set [''q'', ''x''])
   \<and> set (jobs_to_delete table8 [''x'', ''q'', ''x''] [''c'', ''x'', ''a'', ''b'', ''a'']) =
       set (jobs_to_delete table8 [''q'', ''x''] [''a'', ''b'', ''c'', ''x''])"
proof -
  have h1: "enumerates table8" by (rule enumerates_table8)
  have h2: "set [''x'', ''q'', ''x''] = set [''q'', ''x'']" by auto
  have h3: "set [''c'', ''x'', ''a'', ''b'', ''a''] = set [''a'', ''b'', ''c'', ''x'']" by auto
  show ?thesis
    using jobs_to_delete_is_difference [OF h1 h2 h3] h1 h2 h3 by blast
qed

text \<open>
  C5 claims that the sequence returned by \<open>jobs_to_delete\<close> is sorted. The script returns
  \<^verbatim>\<open>list(set(...))\<close> and sorts nowhere: with the strings a, b, c in slots 0, 3, 2 the
  result is a, c, b.
\<close>

theorem jobs_to_delete_sorted_counterexample:
  "\<not> sorted (jobs_to_delete table8 [] [''a'', ''b'', ''c''])"
  by (simp add: jobs_to_delete_def py_list_def difference_def py_set_def set_add_def
      table8_def slot8_def string_hash_def)

text \<open>
  C5, as amended. The sequence returned by \<open>jobs_to_delete\<close> is a rearrangement of the
  sorted sequence of the orphaned jobs, in the order in which the runtime walks the set:
  sorting it gives the sorted sequence of the actual jobs that are not expected.
\<close>

theorem jobs_to_delete_rearranges_sorted:
  fixes E A :: "'a::linorder list"
  assumes "enumerates t"
  shows "sort (jobs_to_delete t E A) = sorted_list_of_set (set A - set E)"
proof -
  have "sorted_list_of_set (set (jobs_to_delete t E A)) = sort (jobs_to_delete t E A)"
    using distinct_jobs_to_delete [OF assms, of E A]
    by (simp add: sorted_list_of_set_sort_remdups distinct_remdups_id)
  then show ?thesis
    by (simp add: set_jobs_to_delete [OF assms])
qed

text \<open>An instance, where the sequence returned is not the sorted one.\<close>

theorem jobs_to_delete_rearranges_sorted_witness:
  "enumerates table8
   \<and> sort (jobs_to_delete table8 [] [''a'', ''b'', ''c'']) =
       sorted_list_of_set (set [''a'', ''b'', ''c''] - set [])
   \<and> jobs_to_delete table8 [] [''a'', ''b'', ''c''] = [''a'', ''c'', ''b'']"
proof -
  have h: "enumerates table8" by (rule enumerates_table8)
  have "jobs_to_delete table8 [] [''a'', ''b'', ''c''] = [''a'', ''c'', ''b'']"
    by (simp add: jobs_to_delete_def py_list_def difference_def py_set_def set_add_def
      table8_def slot8_def string_hash_def)
  then show ?thesis
    using jobs_to_delete_rearranges_sorted [OF h, of "[]" "[''a'', ''b'', ''c'']"] h by blast
qed

lemma flaky_run:
  "main id flaky_client [''svc.jobX''] [''svc.jobX'', ''svc.jobY'', ''svc.jobZ'']
       [''svc.jobX'', ''svc.jobY'', ''svc.jobZ''] =
   \<lparr>to_delete = [''svc.jobY'', ''svc.jobZ''],
    task_successes = [(''svc.jobY'', PyNone)],
    task_failures = [(''svc.jobZ'', PyExn (Exn ''500''))],
    job_successes = [(''svc.jobY'', PyNone), (''svc.jobZ'', PyNone)],
    job_failures = [],
    stdout =
      [''Successfully Removed Tasks (if any were running) for:'' @ [CHR 0x0A] @ ''  svc.jobY'',
       ''Failed to Delete Tasks for:'' @ [CHR 0x0A] @ ''  svc.jobZ'',
       ''Successfully Removed Jobs:'' @ [CHR 0x0A] @ ''  svc.jobY'' @ [CHR 0x0A] @ ''  svc.jobZ''],
    exit_status = 1,
    world_after =
      \<lparr>remote = [''svc.jobX''],
       calls =
         [(DeleteTasks, ''svc.jobY'', Returns PyNone),
          (DeleteTasks, ''svc.jobZ'', Raises (Exn ''500'')),
          (Delete, ''svc.jobY'', Returns PyNone),
          (Delete, ''svc.jobZ'', Returns PyNone)]\<rparr>\<rparr>"
  by (simp add: main_def jobs_to_delete_def py_list_def difference_def py_set_def set_add_def
      flaky_client_def execute_chronos_api_call_for_job_def client_delete_def
      client_delete_tasks_def sort_response_def format_list_output_def)

lemma failures_nonempty:
  "(filter (\<lambda>r. isinstance_Exception (snd r)) (map response_of evs) \<noteq> []) = list_ex failed evs"
  by (induction evs) (simp_all add: snd_response_of)

text \<open>
  C1. The exit status of a run is 0 when no actual job is unexpected; otherwise it is 1
  when at least one attempt of the run, on tasks or on a job, failed, and 0 when none
  did. An attempt whose call raised is a failed one; one whose call returned is judged
  by what \<open>main\<close> makes of the value returned.
\<close>

theorem exit_status_policy:
  assumes "enumerates t"
  shows "exit_status (main t c E A s) =
           (if set A - set E = {} then 0
            else if list_ex failed (calls (world_after (main t c E A s))) then 1 else 0)
       \<and> failed (op, j, Raises e)
       \<and> failed (op, j, Returns v) = isinstance_Exception v"
proof -
  obtain et ej where ev:
    "calls (world_after (main t c E A s)) = et @ ej"
    "task_failures (main t c E A s) =
       filter (\<lambda>r. isinstance_Exception (snd r)) (map response_of et)"
    "job_failures (main t c E A s) =
       filter (\<lambda>r. isinstance_Exception (snd r)) (map response_of ej)"
    by (rule main_events [of t c E A s])
  have empty: "(to_delete (main t c E A s) = []) = (set A - set E = {})"
    using set_jobs_to_delete [OF assms, of E A]
    by (simp add: main_to_delete flip: set_empty)
  have any: "(job_failures (main t c E A s) \<noteq> [] \<or> task_failures (main t c E A s) \<noteq> [])
      = list_ex failed (calls (world_after (main t c E A s)))"
    by (auto simp add: ev failures_nonempty)
  have "exit_status (main t c E A s) =
           (if set A - set E = {} then 0
            else if list_ex failed (calls (world_after (main t c E A s))) then 1 else 0)"
    unfolding main_exit_status [of t c E A s] empty any ..
  then show ?thesis
    by (simp add: failed_triple recorded_def)
qed

text \<open>
  Two runs: one where deleting the tasks of a job raises, one with nothing to delete.
\<close>

theorem exit_status_policy_witness:
  "enumerates (id :: job list \<Rightarrow> job list)
   \<and> exit_status (main id flaky_client [''svc.jobX''] [''svc.jobX'', ''svc.jobY'', ''svc.jobZ'']
        [''svc.jobX'', ''svc.jobY'', ''svc.jobZ'']) = 1
   \<and> exit_status (main id flaky_client [''svc.jobX'', ''svc.jobW''] [''svc.jobX'']
        [''svc.jobX'']) = 0"
proof -
  have h: "enumerates (id :: job list \<Rightarrow> job list)" by (rule enumerates_id)
  have ne: "set [''svc.jobX'', ''svc.jobY'', ''svc.jobZ''] - set [''svc.jobX''] \<noteq> {}"
    by simp
  have ex: "list_ex failed (calls (world_after (main id flaky_client [''svc.jobX'']
        [''svc.jobX'', ''svc.jobY'', ''svc.jobZ''] [''svc.jobX'', ''svc.jobY'', ''svc.jobZ''])))"
    by (simp add: flaky_run failed_triple recorded_def)
  have e: "set [''svc.jobX''] - set [''svc.jobX'', ''svc.jobW''] = {}"
    by simp
  have 1: "exit_status (main id flaky_client [''svc.jobX'']
        [''svc.jobX'', ''svc.jobY'', ''svc.jobZ''] [''svc.jobX'', ''svc.jobY'', ''svc.jobZ'']) = 1"
    using exit_status_policy [OF h, of flaky_client "[''svc.jobX'']"
        "[''svc.jobX'', ''svc.jobY'', ''svc.jobZ'']" "[''svc.jobX'', ''svc.jobY'', ''svc.jobZ'']"]
      ne ex
    by simp
  have 2: "exit_status (main id flaky_client [''svc.jobX'', ''svc.jobW''] [''svc.jobX'']
        [''svc.jobX'']) = 0"
    using exit_status_policy [OF h, of flaky_client "[''svc.jobX'', ''svc.jobW'']"
        "[''svc.jobX'']" "[''svc.jobX'']"] e
    by simp
  from h 1 2 show ?thesis by blast
qed

text \<open>
  C7. When every actual job is expected, the run issues no call and leaves the scheduler
  as it was, exits with 0 and prints the single line that nothing is to be removed.
\<close>

theorem no_orphans_no_calls:
  assumes "enumerates t" and "set A \<subseteq> set E"
  shows "calls (world_after (main t c E A s)) = []
       \<and> remote (world_after (main t c E A s)) = s
       \<and> exit_status (main t c E A s) = 0
       \<and> stdout (main t c E A s) = [''No Chronos Jobs to remove'']"
proof -
  have "set (jobs_to_delete t E A) = {}"
    using set_jobs_to_delete [OF assms(1), of E A] assms(2) by auto
  then have "jobs_to_delete t E A = []" by simp
  then show ?thesis
    by (simp add: main_def)
qed

text \<open>
  A run with one actual job, which is expected.
\<close>

theorem no_orphans_no_calls_witness:
  "enumerates (id :: job list \<Rightarrow> job list)
   \<and> set [''svc.jobX''] \<subseteq> set [''svc.jobX'', ''svc.jobW'']
   \<and> calls (world_after (main id flaky_client [''svc.jobX'', ''svc.jobW''] [''svc.jobX'']
        [''svc.jobX''])) = []
   \<and> remote (world_after (main id flaky_client [''svc.jobX'', ''svc.jobW''] [''svc.jobX'']
        [''svc.jobX''])) = [''svc.jobX'']
   \<and> exit_status (main id flaky_client [''svc.jobX'', ''svc.jobW''] [''svc.jobX'']
        [''svc.jobX'']) = 0
   \<and> stdout (main id flaky_client [''svc.jobX'', ''svc.jobW''] [''svc.jobX'']
        [''svc.jobX'']) = [''No Chronos Jobs to remove'']"
proof -
  have h1: "enumerates (id :: job list \<Rightarrow> job list)" by (rule enumerates_id)
  have h2: "set [''svc.jobX''] \<subseteq> set [''svc.jobX'', ''svc.jobW'']" by simp
  show ?thesis
    using no_orphans_no_calls [OF h1 h2, of flaky_client "[''svc.jobX'']"] h1 h2 by blast
qed

text \<open>
  C10. The calls of a run, in the order issued, are \<open>delete_tasks\<close> for each job of the
  work list, then \<open>delete\<close> for each job of the work list: no \<open>delete\<close> precedes a
  \<open>delete_tasks\<close>.
\<close>

theorem tasks_batch_before_jobs_batch:
  "map call_of (calls (world_after (main t c E A s))) =
     map (Pair DeleteTasks) (to_delete (main t c E A s))
     @ map (Pair Delete) (to_delete (main t c E A s))"
proof -
  obtain et ej where
    "calls (world_after (main t c E A s)) = et @ ej"
    "map call_of et = map (Pair DeleteTasks) (jobs_to_delete t E A)"
    "map call_of ej = map (Pair Delete) (jobs_to_delete t E A)"
    by (rule main_events [of t c E A s])
  then show ?thesis
    by (simp add: main_to_delete)
qed

lemma fst_response_of: "fst (response_of ev) = snd (call_of ev)"
  by (simp add: response_of_def call_of_def)

lemma names_of_responses:
  "map call_of evs = map (Pair x) jobs \<Longrightarrow> map fst (map response_of evs) = jobs"
proof -
  assume a: "map call_of evs = map (Pair x) jobs"
  have "map fst (map response_of evs) = map snd (map call_of evs)"
    by (simp add: fst_response_of)
  also have "\<dots> = jobs"
    by (simp add: a o_def)
  finally show ?thesis .
qed


lemma op_of_events:
  "map call_of evs = map (Pair x) jobs \<Longrightarrow> ev \<in> set evs \<Longrightarrow>
   fst ev = x \<and> fst (snd ev) \<in> set jobs"
proof -
  assume a: "map call_of evs = map (Pair x) jobs" and b: "ev \<in> set evs"
  from b have "call_of ev \<in> set (map call_of evs)" by simp
  then have "call_of ev \<in> set (map (Pair x) jobs)" by (simp only: a)
  then show ?thesis by (auto simp: call_of_def)
qed




lemma occurs_once:
  "distinct xs \<Longrightarrow> x \<in> set xs \<Longrightarrow> length (filter (\<lambda>k. k = x) xs) = 1"
  by (induction xs) (auto simp: filter_empty_conv)

lemma count_both_buckets:
  "length (filter Q (filter (\<lambda>r. \<not> P r) rs @ filter P rs)) = length (filter Q rs)"
  by (induction rs) auto

lemma count_names:
  "length (filter (\<lambda>p. fst p = x) rs) = length (filter (\<lambda>k. k = x) (map fst rs))"
  by (induction rs) auto

lemma count_calls:
  "map call_of evs = map (Pair x) jobs \<Longrightarrow>
   length (filter (\<lambda>ev. call_of ev = (y, j)) evs) =
     (if y = x then length (filter (\<lambda>k. k = j) jobs) else 0)"
proof -
  assume a: "map call_of evs = map (Pair x) jobs"
  have "length (filter (\<lambda>ev. call_of ev = (y, j)) evs) =
        length (filter (\<lambda>p. p = (y, j)) (map call_of evs))"
    by (induction evs) auto
  also have "\<dots> = length (filter (\<lambda>p. p = (y, j)) (map (Pair x) jobs))"
    by (simp only: a)
  also have "\<dots> = (if y = x then length (filter (\<lambda>k. k = j) jobs) else 0)"
    by (induction jobs) auto
  finally show ?thesis .
qed

text \<open>
  C8. The work list holds no job twice, and for every actual job that is not expected
  the run issues one \<open>delete_tasks\<close> call and one \<open>delete\<close> call and files one response in
  the task buckets and one in the job buckets.
\<close>

theorem one_outcome_per_orphan:
  assumes "enumerates t" and "j \<in> set A" and "j \<notin> set E"
  shows "distinct (to_delete (main t c E A s))
       \<and> length (filter (\<lambda>k. k = j) (to_delete (main t c E A s))) = 1
       \<and> length (filter (\<lambda>ev. call_of ev = (DeleteTasks, j))
            (calls (world_after (main t c E A s)))) = 1
       \<and> length (filter (\<lambda>ev. call_of ev = (Delete, j))
            (calls (world_after (main t c E A s)))) = 1
       \<and> length (filter (\<lambda>p. fst p = j)
            (task_successes (main t c E A s) @ task_failures (main t c E A s))) = 1
       \<and> length (filter (\<lambda>p. fst p = j)
            (job_successes (main t c E A s) @ job_failures (main t c E A s))) = 1"
proof -
  define td where "td = jobs_to_delete t E A"
  obtain et ej where ev:
    "calls (world_after (main t c E A s)) = et @ ej"
    "map call_of et = map (Pair DeleteTasks) td"
    "map call_of ej = map (Pair Delete) td"
    "task_successes (main t c E A s) =
       filter (\<lambda>r. \<not> isinstance_Exception (snd r)) (map response_of et)"
    "task_failures (main t c E A s) =
       filter (\<lambda>r. isinstance_Exception (snd r)) (map response_of et)"
    "job_successes (main t c E A s) =
       filter (\<lambda>r. \<not> isinstance_Exception (snd r)) (map response_of ej)"
    "job_failures (main t c E A s) =
       filter (\<lambda>r. isinstance_Exception (snd r)) (map response_of ej)"
    unfolding td_def by (rule main_events [of t c E A s])
  have td: "to_delete (main t c E A s) = td"
    by (simp add: main_to_delete td_def)
  have dist: "distinct td"
    unfolding td_def by (rule distinct_jobs_to_delete [OF assms(1)])
  have "j \<in> set td"
    unfolding td_def using set_jobs_to_delete [OF assms(1), of E A] assms(2,3) by simp
  from occurs_once [OF dist this] have once: "length (filter (\<lambda>k. k = j) td) = 1" .
  have ct: "length (filter (\<lambda>ev. call_of ev = (DeleteTasks, j)) (et @ ej)) = 1"
    by (simp add: count_calls [OF ev(2)] count_calls [OF ev(3)] once)
  have cj: "length (filter (\<lambda>ev. call_of ev = (Delete, j)) (et @ ej)) = 1"
    by (simp add: count_calls [OF ev(2)] count_calls [OF ev(3)] once)
  have bt: "length (filter (\<lambda>p. fst p = j)
            (task_successes (main t c E A s) @ task_failures (main t c E A s))) = 1"
  proof -
    have "length (filter (\<lambda>p. fst p = j)
            (task_successes (main t c E A s) @ task_failures (main t c E A s))) =
          length (filter (\<lambda>p. fst p = j) (map response_of et))"
      unfolding ev(4,5) by (rule count_both_buckets)
    also have "\<dots> = length (filter (\<lambda>k. k = j) (map fst (map response_of et)))"
      by (rule count_names)
    also have "\<dots> = 1"
      unfolding names_of_responses [OF ev(2)] by (rule once)
    finally show ?thesis .
  qed
  have bj: "length (filter (\<lambda>p. fst p = j)
            (job_successes (main t c E A s) @ job_failures (main t c E A s))) = 1"
  proof -
    have "length (filter (\<lambda>p. fst p = j)
            (job_successes (main t c E A s) @ job_failures (main t c E A s))) =
          length (filter (\<lambda>p. fst p = j) (map response_of ej))"
      unfolding ev(6,7) by (rule count_both_buckets)
    also have "\<dots> = length (filter (\<lambda>k. k = j) (map fst (map response_of ej)))"
      by (rule count_names)
    also have "\<dots> = 1"
      unfolding names_of_responses [OF ev(3)] by (rule once)
    finally show ?thesis .
  qed
  from dist once ct cj bt bj show ?thesis
    unfolding td ev(1) by blast
qed

text \<open>
  The same run, for \<open>svc.jobZ\<close>.
\<close>

theorem one_outcome_per_orphan_witness:
  "enumerates (id :: job list \<Rightarrow> job list)
   \<and> ''svc.jobZ'' \<in> set [''svc.jobX'', ''svc.jobY'', ''svc.jobZ'']
   \<and> ''svc.jobZ'' \<notin> set [''svc.jobX'']
   \<and> distinct (to_delete (main id flaky_client [''svc.jobX'']
        [''svc.jobX'', ''svc.jobY'', ''svc.jobZ''] [''svc.jobX'', ''svc.jobY'', ''svc.jobZ'']))
   \<and> length (filter (\<lambda>ev. call_of ev = (DeleteTasks, ''svc.jobZ''))
        (calls (world_after (main id flaky_client [''svc.jobX'']
          [''svc.jobX'', ''svc.jobY'', ''svc.jobZ'']
          [''svc.jobX'', ''svc.jobY'', ''svc.jobZ''])))) = 1
   \<and> length (filter (\<lambda>ev. call_of ev = (Delete, ''svc.jobZ''))
        (calls (world_after (main id flaky_client [''svc.jobX'']
          [''svc.jobX'', ''svc.jobY'', ''svc.jobZ'']
          [''svc.jobX'', ''svc.jobY'', ''svc.jobZ''])))) = 1"
proof -
  have h1: "enumerates (id :: job list \<Rightarrow> job list)" by (rule enumerates_id)
  have h2: "''svc.jobZ'' \<in> set [''svc.jobX'', ''svc.jobY'', ''svc.jobZ'']" by simp
  have h3: "''svc.jobZ'' \<notin> set [''svc.jobX'']" by simp
  show ?thesis
    using one_outcome_per_orphan [OF h1 h2 h3, of flaky_client
        "[''svc.jobX'', ''svc.jobY'', ''svc.jobZ'']"] h1 h2 h3
    by blast
qed

lemma cleanup_tasks_append:
  "cleanup_tasks c (xs @ ys) w =
     (fst (cleanup_tasks c xs w) @ fst (cleanup_tasks c ys (snd (cleanup_tasks c xs w))),
      snd (cleanup_tasks c ys (snd (cleanup_tasks c xs w))))"
  by (induction xs arbitrary: w) (simp_all add: split_beta)

lemma cleanup_jobs_append:
  "cleanup_jobs c (xs @ ys) w =
     (fst (cleanup_jobs c xs w) @ fst (cleanup_jobs c ys (snd (cleanup_jobs c xs w))),
      snd (cleanup_jobs c ys (snd (cleanup_jobs c xs w))))"
  by (induction xs arbitrary: w) (simp_all add: split_beta)

lemma cleanup_append:
  "cleanup op c (xs @ ys) w =
     (fst (cleanup op c xs w) @ fst (cleanup op c ys (snd (cleanup op c xs w))),
      snd (cleanup op c ys (snd (cleanup op c xs w))))"
  by (cases op) (simp_all add: cleanup_def cleanup_tasks_append cleanup_jobs_append)

lemma cleanup_Cons:
  "cleanup op c (job # jobs) w =
     ((job, fst (execute_chronos_api_call_for_job (client_call op c) job w))
        # fst (cleanup op c jobs (snd (execute_chronos_api_call_for_job (client_call op c) job w))),
      snd (cleanup op c jobs (snd (execute_chronos_api_call_for_job (client_call op c) job w))))"
  by (cases op) (simp_all add: cleanup_def client_call_def split_beta)

lemma cleanup_events:
  "\<exists>evs. calls (snd (cleanup op c jobs w)) = calls w @ evs
       \<and> map call_of evs = map (Pair op) jobs
       \<and> fst (cleanup op c jobs w) = map response_of evs"
proof (cases op)
  case DeleteTasks
  then show ?thesis
    using cleanup_tasks_events [of c jobs w] by (simp add: cleanup_def)
next
  case Delete
  then show ?thesis
    using cleanup_jobs_events [of c jobs w] by (simp add: cleanup_def)
qed

lemma raise_is_filed:
  assumes "(op, j, Raises e) \<in> set (calls (world_after (main t c E A s)))"
  shows "(j, PyExn e) \<in> set (failures op (main t c E A s))
       \<and> (j, PyExn e) \<notin> set (successes op (main t c E A s))
       \<and> exit_status (main t c E A s) = 1"
proof -
  obtain et ej where ev:
    "calls (world_after (main t c E A s)) = et @ ej"
    "map call_of et = map (Pair DeleteTasks) (jobs_to_delete t E A)"
    "map call_of ej = map (Pair Delete) (jobs_to_delete t E A)"
    "task_successes (main t c E A s) =
       filter (\<lambda>r. \<not> isinstance_Exception (snd r)) (map response_of et)"
    "task_failures (main t c E A s) =
       filter (\<lambda>r. isinstance_Exception (snd r)) (map response_of et)"
    "job_successes (main t c E A s) =
       filter (\<lambda>r. \<not> isinstance_Exception (snd r)) (map response_of ej)"
    "job_failures (main t c E A s) =
       filter (\<lambda>r. isinstance_Exception (snd r)) (map response_of ej)"
    by (rule main_events [of t c E A s])
  have resp: "response_of (op, j, Raises e) = (j, PyExn e)"
    by (simp add: response_of_triple recorded_def)
  have no: "(j, PyExn e) \<notin> set (successes op (main t c E A s))"
    by (cases op) (auto simp: successes_def ev)
  from assms have "(op, j, Raises e) \<in> set et \<or> (op, j, Raises e) \<in> set ej"
    by (simp add: ev(1))
  then have "(j, PyExn e) \<in> set (failures op (main t c E A s))
      \<and> jobs_to_delete t E A \<noteq> []"
  proof
    assume m: "(op, j, Raises e) \<in> set et"
    from op_of_events [OF ev(2) m] have o: "op = DeleteTasks" and n: "jobs_to_delete t E A \<noteq> []"
      by auto
    have "(j, PyExn e) \<in> set (map response_of et)"
      using m resp by force
    with o n show ?thesis
      by (simp add: failures_def ev(5))
  next
    assume m: "(op, j, Raises e) \<in> set ej"
    from op_of_events [OF ev(3) m] have o: "op = Delete" and n: "jobs_to_delete t E A \<noteq> []"
      by auto
    have "(j, PyExn e) \<in> set (map response_of ej)"
      using m resp by force
    with o n show ?thesis
      by (simp add: failures_def ev(7))
  qed
  then have f: "(j, PyExn e) \<in> set (failures op (main t c E A s))"
    and n: "to_delete (main t c E A s) \<noteq> []"
    by (simp_all add: main_to_delete)
  from f have "job_failures (main t c E A s) \<noteq> [] \<or> task_failures (main t c E A s) \<noteq> []"
    by (cases op) (auto simp: failures_def)
  with n have "exit_status (main t c E A s) = 1"
    by (simp add: main_exit_status)
  with f no show ?thesis by blast
qed

text \<open>
  C2. For either operation, taken alone: when the client's call for a job raises, at
  whatever place of the list the job stands, the wrapper returns the exception as a value
  and the comprehension records it for that job, keeps what the jobs before it gave and
  goes on to call the client for every job after it, each of which gets its outcome.
  And every call of a run that raised is filed by \<open>main\<close> under the failures of its
  operation, not under the successes, and the run exits with 1.
\<close>

theorem raised_exception_is_recorded:
  "(client_call op c job (snd (cleanup op c pre w)) = (Raises e, w1) \<longrightarrow>
      execute_chronos_api_call_for_job (client_call op c) job (snd (cleanup op c pre w))
        = (PyExn e, w1)
      \<and> cleanup op c (pre @ job # rest) w =
          (fst (cleanup op c pre w) @ (job, PyExn e) # fst (cleanup op c rest w1),
           snd (cleanup op c rest w1))
      \<and> map fst (fst (cleanup op c rest w1)) = rest
      \<and> map call_of (drop (length (calls w1)) (calls (snd (cleanup op c rest w1))))
          = map (Pair op) rest)
   \<and> ((op, j, Raises e') \<in> set (calls (world_after (main t c E A s))) \<longrightarrow>
      (j, PyExn e') \<in> set (failures op (main t c E A s))
      \<and> (j, PyExn e') \<notin> set (successes op (main t c E A s))
      \<and> exit_status (main t c E A s) = 1)"
proof (intro conjI impI)
  assume r: "client_call op c job (snd (cleanup op c pre w)) = (Raises e, w1)"
  show x: "execute_chronos_api_call_for_job (client_call op c) job (snd (cleanup op c pre w))
        = (PyExn e, w1)"
    by (simp add: execute_chronos_api_call_for_job_def r)
  show "cleanup op c (pre @ job # rest) w =
          (fst (cleanup op c pre w) @ (job, PyExn e) # fst (cleanup op c rest w1),
           snd (cleanup op c rest w1))"
    by (simp add: cleanup_append [of op c pre "job # rest" w] cleanup_Cons x)
  obtain evs where evs: "calls (snd (cleanup op c rest w1)) = calls w1 @ evs"
    "map call_of evs = map (Pair op) rest"
    "fst (cleanup op c rest w1) = map response_of evs"
    using cleanup_events [of op c rest w1] by blast
  show "map fst (fst (cleanup op c rest w1)) = rest"
    unfolding evs(3) by (rule names_of_responses [OF evs(2)])
  show "map call_of (drop (length (calls w1)) (calls (snd (cleanup op c rest w1))))
          = map (Pair op) rest"
    by (simp add: evs(1,2))
next
  assume "(op, j, Raises e') \<in> set (calls (world_after (main t c E A s)))"
  from raise_is_filed [OF this]
  show "(j, PyExn e') \<in> set (failures op (main t c E A s))"
    and "(j, PyExn e') \<notin> set (successes op (main t c E A s))"
    and "exit_status (main t c E A s) = 1"
    by simp_all
qed

text \<open>
  Deleting the tasks of \<open>svc.jobZ\<close> raises, deleting its job does not: the comprehension
  over three jobs with \<open>svc.jobZ\<close> in the middle, and the run.
\<close>

theorem raised_exception_is_recorded_witness:
  "client_call DeleteTasks flaky_client ''svc.jobZ''
       (snd (cleanup DeleteTasks flaky_client [''svc.jobY'']
          \<lparr>remote = [''svc.jobX''], calls = []\<rparr>)) =
     (Raises (Exn ''500''),
      \<lparr>remote = [''svc.jobX''],
       calls = [(DeleteTasks, ''svc.jobY'', Returns PyNone),
                (DeleteTasks, ''svc.jobZ'', Raises (Exn ''500''))]\<rparr>)
   \<and> (DeleteTasks, ''svc.jobZ'', Raises (Exn ''500''))
       \<in> set (calls (world_after (main id flaky_client [''svc.jobX'']
            [''svc.jobX'', ''svc.jobY'', ''svc.jobZ''] [''svc.jobX'', ''svc.jobY'', ''svc.jobZ''])))
   \<and> fst (cleanup DeleteTasks flaky_client [''svc.jobY'', ''svc.jobZ'', ''svc.jobW'']
         \<lparr>remote = [''svc.jobX''], calls = []\<rparr>) =
       [(''svc.jobY'', PyNone), (''svc.jobZ'', PyExn (Exn ''500'')), (''svc.jobW'', PyNone)]
   \<and> (''svc.jobZ'', PyExn (Exn ''500''))
       \<in> set (failures DeleteTasks (main id flaky_client [''svc.jobX'']
            [''svc.jobX'', ''svc.jobY'', ''svc.jobZ''] [''svc.jobX'', ''svc.jobY'', ''svc.jobZ'']))
   \<and> (''svc.jobZ'', PyExn (Exn ''500''))
       \<notin> set (successes DeleteTasks (main id flaky_client [''svc.jobX'']
            [''svc.jobX'', ''svc.jobY'', ''svc.jobZ''] [''svc.jobX'', ''svc.jobY'', ''svc.jobZ'']))
   \<and> exit_status (main id flaky_client [''svc.jobX'']
        [''svc.jobX'', ''svc.jobY'', ''svc.jobZ''] [''svc.jobX'', ''svc.jobY'', ''svc.jobZ'']) = 1"
proof -
  let ?w0 = "\<lparr>remote = [''svc.jobX''], calls = []\<rparr> :: job list world"
  let ?w1 = "\<lparr>remote = [''svc.jobX''],
       calls = [(DeleteTasks, ''svc.jobY'', Returns PyNone),
                (DeleteTasks, ''svc.jobZ'', Raises (Exn ''500''))]\<rparr> :: job list world"
  let ?r = "main id flaky_client [''svc.jobX'']
        [''svc.jobX'', ''svc.jobY'', ''svc.jobZ''] [''svc.jobX'', ''svc.jobY'', ''svc.jobZ'']"
  have h1: "client_call DeleteTasks flaky_client ''svc.jobZ''
       (snd (cleanup DeleteTasks flaky_client [''svc.jobY''] ?w0)) = (Raises (Exn ''500''), ?w1)"
    by (simp add: client_call_def cleanup_def client_delete_tasks_def flaky_client_def
        execute_chronos_api_call_for_job_def)
  have h2: "(DeleteTasks, ''svc.jobZ'', Raises (Exn ''500'')) \<in> set (calls (world_after ?r))"
    by (simp add: flaky_run)
  have before: "fst (cleanup DeleteTasks flaky_client [''svc.jobY''] ?w0) = [(''svc.jobY'', PyNone)]"
    by (simp add: cleanup_def client_delete_tasks_def flaky_client_def
        execute_chronos_api_call_for_job_def)
  have after: "fst (cleanup DeleteTasks flaky_client [''svc.jobW''] ?w1) = [(''svc.jobW'', PyNone)]"
    by (simp add: cleanup_def client_delete_tasks_def flaky_client_def
        execute_chronos_api_call_for_job_def)
  note r = raised_exception_is_recorded [of DeleteTasks flaky_client "''svc.jobZ''"
      "[''svc.jobY'']" ?w0 "Exn ''500''" ?w1 "[''svc.jobW'']" "''svc.jobZ''" "Exn ''500''"
      id "[''svc.jobX'']" "[''svc.jobX'', ''svc.jobY'', ''svc.jobZ'']"
      "[''svc.jobX'', ''svc.jobY'', ''svc.jobZ'']"]
  from r h1 have "cleanup DeleteTasks flaky_client ([''svc.jobY''] @ ''svc.jobZ'' # [''svc.jobW'']) ?w0 =
      (fst (cleanup DeleteTasks flaky_client [''svc.jobY''] ?w0)
         @ (''svc.jobZ'', PyExn (Exn ''500'')) # fst (cleanup DeleteTasks flaky_client [''svc.jobW''] ?w1),
       snd (cleanup DeleteTasks flaky_client [''svc.jobW''] ?w1))"
    by blast
  then have "fst (cleanup DeleteTasks flaky_client ([''svc.jobY''] @ ''svc.jobZ'' # [''svc.jobW'']) ?w0) =
      [(''svc.jobY'', PyNone)] @ (''svc.jobZ'', PyExn (Exn ''500'')) # [(''svc.jobW'', PyNone)]"
    by (simp only: fst_conv before after)
  then have all: "fst (cleanup DeleteTasks flaky_client [''svc.jobY'', ''svc.jobZ'', ''svc.jobW''] ?w0) =
       [(''svc.jobY'', PyNone), (''svc.jobZ'', PyExn (Exn ''500'')), (''svc.jobW'', PyNone)]"
    by (simp only: append_Cons append_Nil)
  from r h2 have run: "(''svc.jobZ'', PyExn (Exn ''500'')) \<in> set (failures DeleteTasks ?r)
      \<and> (''svc.jobZ'', PyExn (Exn ''500'')) \<notin> set (successes DeleteTasks ?r)
      \<and> exit_status ?r = 1"
    by blast
  from h1 h2 all run show ?thesis by blast
qed

lemma return_is_filed:
  assumes "(op, j, Returns v) \<in> set (calls (world_after (main t c E A s)))"
    and "\<not> isinstance_Exception v"
  shows "(j, v) \<in> set (successes op (main t c E A s))
       \<and> (j, v) \<notin> set (failures op (main t c E A s))"
proof -
  obtain et ej where ev:
    "calls (world_after (main t c E A s)) = et @ ej"
    "map call_of et = map (Pair DeleteTasks) (jobs_to_delete t E A)"
    "map call_of ej = map (Pair Delete) (jobs_to_delete t E A)"
    "task_successes (main t c E A s) =
       filter (\<lambda>r. \<not> isinstance_Exception (snd r)) (map response_of et)"
    "task_failures (main t c E A s) =
       filter (\<lambda>r. isinstance_Exception (snd r)) (map response_of et)"
    "job_successes (main t c E A s) =
       filter (\<lambda>r. \<not> isinstance_Exception (snd r)) (map response_of ej)"
    "job_failures (main t c E A s) =
       filter (\<lambda>r. isinstance_Exception (snd r)) (map response_of ej)"
    by (rule main_events [of t c E A s])
  have resp: "response_of (op, j, Returns v) = (j, v)"
    by (simp add: response_of_triple recorded_def)
  have no: "(j, v) \<notin> set (failures op (main t c E A s))"
    using assms(2) by (cases op) (auto simp: failures_def ev)
  from assms(1) have "(op, j, Returns v) \<in> set et \<or> (op, j, Returns v) \<in> set ej"
    by (simp add: ev(1))
  then have "(j, v) \<in> set (successes op (main t c E A s))"
  proof
    assume m: "(op, j, Returns v) \<in> set et"
    from op_of_events [OF ev(2) m] have "op = DeleteTasks" by simp
    moreover have "(j, v) \<in> set (map response_of et)"
      using m resp by force
    ultimately show ?thesis
      using assms(2) by (simp add: successes_def ev(4))
  next
    assume m: "(op, j, Returns v) \<in> set ej"
    from op_of_events [OF ev(3) m] have "op = Delete" by simp
    moreover have "(j, v) \<in> set (map response_of ej)"
      using m resp by force
    ultimately show ?thesis
      using assms(2) by (simp add: successes_def ev(6))
  qed
  with no show ?thesis by blast
qed

lemma response_body_no_Exception: "\<not> isinstance_Exception (response_body b)"
  by (cases b) (simp_all add: response_body_def)

text \<open>
  C4. A call that returns is a success whatever the body it returns: the wrapper hands
  the body back as it is, and \<open>main\<close> files the response of every call of a run that
  returned a body, empty or not, under the successes of its operation and not under the
  failures.
\<close>

theorem returned_body_is_success:
  "(api_call job w = (Returns (response_body b), w') \<longrightarrow>
      execute_chronos_api_call_for_job api_call job w = (response_body b, w'))
   \<and> ((op, j, Returns (response_body b')) \<in> set (calls (world_after (main t c E A s))) \<longrightarrow>
      (j, response_body b') \<in> set (successes op (main t c E A s))
      \<and> (j, response_body b') \<notin> set (failures op (main t c E A s)))"
proof (intro conjI impI)
  assume "api_call job w = (Returns (response_body b), w')"
  then show "execute_chronos_api_call_for_job api_call job w = (response_body b, w')"
    by (simp add: execute_chronos_api_call_for_job_def)
next
  assume m: "(op, j, Returns (response_body b')) \<in> set (calls (world_after (main t c E A s)))"
  from return_is_filed [OF m response_body_no_Exception]
  show "(j, response_body b') \<in> set (successes op (main t c E A s))"
    and "(j, response_body b') \<notin> set (failures op (main t c E A s))"
    by simp_all
qed

text \<open>
  The job deletion of \<open>svc.jobZ\<close>, which returns \<^verbatim>\<open>None\<close>.
\<close>

theorem returned_body_is_success_witness:
  "client_delete flaky_client ''svc.jobZ'' \<lparr>remote = [''svc.jobX'', ''svc.jobZ''], calls = []\<rparr> =
     (Returns (response_body None),
      \<lparr>remote = [''svc.jobX''], calls = [(Delete, ''svc.jobZ'', Returns PyNone)]\<rparr>)
   \<and> (Delete, ''svc.jobZ'', Returns (response_body None))
       \<in> set (calls (world_after (main id flaky_client [''svc.jobX'']
            [''svc.jobX'', ''svc.jobY'', ''svc.jobZ''] [''svc.jobX'', ''svc.jobY'', ''svc.jobZ''])))
   \<and> execute_chronos_api_call_for_job (client_delete flaky_client) ''svc.jobZ''
       \<lparr>remote = [''svc.jobX'', ''svc.jobZ''], calls = []\<rparr> =
     (response_body None,
      \<lparr>remote = [''svc.jobX''], calls = [(Delete, ''svc.jobZ'', Returns PyNone)]\<rparr>)
   \<and> (''svc.jobZ'', response_body None)
       \<in> set (successes Delete (main id flaky_client [''svc.jobX'']
            [''svc.jobX'', ''svc.jobY'', ''svc.jobZ''] [''svc.jobX'', ''svc.jobY'', ''svc.jobZ'']))
   \<and> (''svc.jobZ'', response_body None)
       \<notin> set (failures Delete (main id flaky_client [''svc.jobX'']
            [''svc.jobX'', ''svc.jobY'', ''svc.jobZ''] [''svc.jobX'', ''svc.jobY'', ''svc.jobZ'']))"
proof -
  let ?w0 = "\<lparr>remote = [''svc.jobX'', ''svc.jobZ''], calls = []\<rparr> :: job list world"
  let ?w1 = "\<lparr>remote = [''svc.jobX''],
       calls = [(Delete, ''svc.jobZ'', Returns PyNone)]\<rparr> :: job list world"
  let ?r = "main id flaky_client [''svc.jobX'']
        [''svc.jobX'', ''svc.jobY'', ''svc.jobZ''] [''svc.jobX'', ''svc.jobY'', ''svc.jobZ'']"
  have h1: "client_delete flaky_client ''svc.jobZ'' ?w0 = (Returns (response_body None), ?w1)"
    by (simp add: client_delete_def flaky_client_def response_body_def)
  have h2: "(Delete, ''svc.jobZ'', Returns (response_body None)) \<in> set (calls (world_after ?r))"
    by (simp add: flaky_run response_body_def)
  note r = returned_body_is_success [of "client_delete flaky_client" "''svc.jobZ''" ?w0 None ?w1
      Delete "''svc.jobZ''" None id flaky_client "[''svc.jobX'']"
      "[''svc.jobX'', ''svc.jobY'', ''svc.jobZ'']" "[''svc.jobX'', ''svc.jobY'', ''svc.jobZ'']"]
  from r h1 h2 show ?thesis by blast
qed

end
